theory Spec2Isabelle
  imports Main
begin

section \<open>Values, errors and files\<close>

text \<open>
  The store of \<^verbatim>\<open>main.go\<close> is a \<^verbatim>\<open>map[string]any\<close>. A value of type
  \<^verbatim>\<open>any\<close> is an interface value: nil, or a value of some concrete type. A
  \<^verbatim>\<open>bool\<close>, an \<^verbatim>\<open>int\<close> and a \<^verbatim>\<open>string\<close> have constructors of their own;
  \<open>BasicV t c\<close> is a value of any other type \<open>t\<close> that is not a pointer, with contents
  \<open>c\<close> (its bytes, which the model never looks into), and \<open>NamedV n\<close> is a value of a
  type \<open>n\<close> declared by a program, such as a struct (its fields play no part).
  \<open>PointerV v\<close> is a pointer that is not nil, to the value \<open>v\<close>, and \<open>NilPointerV\<close> a nil
  pointer. The program does no arithmetic on the values it stores, so an \<^verbatim>\<open>int\<close> is
  an integer without bounds here.
\<close>

datatype any =
    NilV
  | BoolV bool
  | IntV int
  | StringV string
  | BasicV string string
  | NamedV string
  | PointerV any
  | NilPointerV

text \<open>
  \<^verbatim>\<open>encoding/gob\<close> transmits a value inside an interface only when its concrete type
  is registered. The package registers the basic types and the slices of them by itself
  (its \<^verbatim>\<open>registerBasics\<close>), under these names; every other type needs a call of
  \<^verbatim>\<open>gob.Register\<close>, and the program makes none.
\<close>

definition registerBasics :: "string list" where
  "registerBasics =
     [''int'', ''int8'', ''int16'', ''int32'', ''int64'',
      ''uint'', ''uint8'', ''uint16'', ''uint32'', ''uint64'',
      ''float32'', ''float64'', ''complex64'', ''complex128'', ''uintptr'',
      ''bool'', ''string'',
      ''[]int'', ''[]int8'', ''[]int16'', ''[]int32'', ''[]int64'',
      ''[]uint'', ''[]uint8'', ''[]uint16'', ''[]uint32'', ''[]uint64'',
      ''[]float32'', ''[]float64'', ''[]complex64'', ''[]complex128'', ''[]uintptr'',
      ''[]bool'', ''[]string'']"

fun type_name :: "any \<Rightarrow> string" where
  "type_name NilV = ''interface {}''"
| "type_name (BoolV b) = ''bool''"
| "type_name (IntV i) = ''int''"
| "type_name (StringV s) = ''string''"
| "type_name (BasicV t c) = t"
| "type_name (NamedV n) = n"
| "type_name (PointerV v) = CHR ''*'' # type_name v"
| "type_name NilPointerV = ''*''"

text \<open>
  gob looks through pointers: it registers and looks up a type by its base type, the
  type that is left when all pointers are taken off, and it transmits the value at the
  end of the pointers.
\<close>

fun base :: "any \<Rightarrow> any" where
  "base (PointerV v) = base v"
| "base v = v"

fun registered :: "any \<Rightarrow> bool" where
  "registered NilV = False"
| "registered (BoolV b) = True"
| "registered (IntV i) = True"
| "registered (StringV s) = True"
| "registered (BasicV t c) = (t \<in> set registerBasics)"
| "registered (NamedV n) = False"
| "registered (PointerV v) = False"
| "registered NilPointerV = False"

text \<open>
  The errors the methods return are those of \<^verbatim>\<open>os.Create\<close>, \<^verbatim>\<open>os.Open\<close> and of
  reading the file (a \<^verbatim>\<open>*fs.PathError\<close> with its errno), and those of gob:
  \<open>StreamError\<close> when no value message of the map's type can be read from the stream
  (end of file, a truncated message, a message of another type, bytes that are no gob
  stream), \<open>NotRegistered n\<close> for an interface value whose concrete type \<open>n\<close> is not
  registered (on encoding and on decoding), \<open>ShortValue\<close> when a value message ends
  before the number of entries it announces, \<open>NilPointer\<close> for a nil pointer inside an
  interface, which gob refuses to encode, and \<open>BadValue\<close> for an element of a message
  that is no encoding of a value.
\<close>

datatype errno = ENOENT | EISDIR | ENOTDIR

datatype error =
    PathError errno
  | StreamError
  | NotRegistered string
  | ShortValue
  | NilPointer
  | BadValue

text \<open>
  A gob stream is a sequence of length-prefixed messages; the decoder reads one whole
  message into its buffer before it decodes any of it. The binary layout is gob's own
  and is not modelled: a file holds the messages as the decoder sees them. \<open>TypeDef\<close> is
  a type definition message, \<open>MapValue n ps\<close> a value message of type
  \<^verbatim>\<open>map[string]interface{}\<close> that announces \<open>n\<close> entries and carries the key and element
  pairs \<open>ps\<close>, and \<open>Other\<close> any other message.

  A name of the file system leads to a regular file with its contents, to a directory,
  or to a device that takes every write and keeps nothing, as \<^verbatim>\<open>/dev/null\<close> does.
\<close>

datatype message = TypeDef | MapValue nat "(string \<times> any) list" | Other

datatype node = Regular "message list" | Directory | Device

type_synonym filesys = "string \<rightharpoonup> node"

section \<open>The store\<close>

record DataBase =
  data :: "string \<rightharpoonup> any"

definition NewDataBase :: DataBase where
  "NewDataBase = \<lparr>data = Map.empty\<rparr>"

definition Set :: "string \<Rightarrow> any \<Rightarrow> DataBase \<Rightarrow> DataBase" where
  "Set key value db = db\<lparr>data := (data db)(key \<mapsto> value)\<rparr>"

text \<open>
  \<^verbatim>\<open>value, exists := db.data[key]\<close>: for a missing key Go yields the zero value of
  \<^verbatim>\<open>any\<close>, the nil interface, and \<^verbatim>\<open>false\<close>.
\<close>

definition Get :: "string \<Rightarrow> DataBase \<Rightarrow> any \<times> bool" where
  "Get key db = (case data db key of Some v \<Rightarrow> (v, True) | None \<Rightarrow> (NilV, False))"

text \<open>A sequence of \<^verbatim>\<open>Set\<close> calls, oldest first.\<close>

definition SetAll :: "(string \<times> any) list \<Rightarrow> DataBase \<Rightarrow> DataBase" where
  "SetAll calls db = foldl (\<lambda>d (k, v). Set k v d) db calls"

text \<open>
  The value most recently set for a key, in the spec's words: among the calls for that
  key, the last one's value; none when no call names the key.
\<close>

definition most_recent :: "string \<Rightarrow> (string \<times> any) list \<Rightarrow> any option" where
  "most_recent key calls =
     (let cs = filter (\<lambda>(k, v). k = key) calls
      in if cs = [] then None else Some (snd (last cs)))"

section \<open>The file system\<close>

text \<open>
  The directory part of a name: what stands before its last slash, and nothing when the
  name has no slash (the file is then looked for in the current directory).
\<close>

definition dir :: "string \<Rightarrow> string option" where
  "dir name =
     (if CHR ''/'' \<in> set name
      then Some (rev (tl (dropWhile (\<lambda>c. c \<noteq> CHR ''/'') (rev name))))
      else None)"

text \<open>
  Both \<^verbatim>\<open>os.Create\<close> and \<^verbatim>\<open>os.Open\<close> fail on the empty name, and
  \<^verbatim>\<open>os.Create\<close> fails when the directory part of the name is missing or is no
  directory. The root directory, whose name is empty here, always exists.
\<close>

definition walk :: "string \<Rightarrow> filesys \<Rightarrow> errno option" where
  "walk name fs =
     (if name = [] then Some ENOENT
      else case dir name of
        None \<Rightarrow> None
      | Some d \<Rightarrow>
          (if d = [] then None
           else case fs d of
             None \<Rightarrow> Some ENOENT
           | Some Directory \<Rightarrow> None
           | Some (Regular ms) \<Rightarrow> Some ENOTDIR
           | Some Device \<Rightarrow> Some ENOTDIR))"

text \<open>
  An open file is the name it was opened under and the offset of the next write, counted
  in messages. \<^verbatim>\<open>os.Create\<close> creates the file or truncates it to length zero and
  returns it with offset zero; it fails on a directory and leaves a device as it is.
\<close>

type_synonym File = "string \<times> nat"

definition os_Create :: "string \<Rightarrow> filesys \<Rightarrow> error + File \<times> filesys" where
  "os_Create name fs =
     (case walk name fs of
        Some e \<Rightarrow> Inl (PathError e)
      | None \<Rightarrow>
          (case fs name of
             Some Directory \<Rightarrow> Inl (PathError EISDIR)
           | Some Device \<Rightarrow> Inr ((name, 0), fs)
           | Some (Regular ms) \<Rightarrow> Inr ((name, 0), fs(name \<mapsto> Regular []))
           | None \<Rightarrow> Inr ((name, 0), fs(name \<mapsto> Regular []))))"

text \<open>
  A write puts the messages at the offset of the open file, over what is there, and
  moves the offset; what the file holds behind them stays. A device keeps nothing.
\<close>

definition Write :: "File \<Rightarrow> message list \<Rightarrow> filesys \<Rightarrow> File \<times> filesys" where
  "Write f msgs fs =
     (case f of (name, off) \<Rightarrow>
        (case fs name of
           Some (Regular old) \<Rightarrow>
             ((name, off + length msgs),
              fs(name \<mapsto> Regular (take off old @ msgs @ drop (off + length msgs) old)))
         | _ \<Rightarrow> ((name, off + length msgs), fs)))"

text \<open>
  \<^verbatim>\<open>os.Open\<close> fails on a name that does not exist; it opens a directory, and the
  first read from it fails. A device reads as an empty file.
\<close>

definition os_Open :: "string \<Rightarrow> filesys \<Rightarrow> error + node" where
  "os_Open name fs =
     (if name = [] then Inl (PathError ENOENT)
      else case fs name of
        None \<Rightarrow> Inl (PathError ENOENT)
      | Some n \<Rightarrow> Inr n)"

definition Read :: "node \<Rightarrow> error + message list" where
  "Read n =
     (case n of
        Regular ms \<Rightarrow> Inr ms
      | Directory \<Rightarrow> Inl (PathError EISDIR)
      | Device \<Rightarrow> Inr [])"

section \<open>Encoding and decoding with gob\<close>

text \<open>
  The encoder walks the map with \<^verbatim>\<open>reflect.Value.MapRange\<close>. Go leaves the order of a
  map iteration open, so the order of the keys is an argument of the model: a list
  \<open>order\<close> that \<open>visits\<close> the map names each of its keys once.
\<close>

definition visits :: "string list \<Rightarrow> (string \<rightharpoonup> any) \<Rightarrow> bool" where
  "visits order m \<longleftrightarrow> distinct order \<and> set order = dom m"

definition MapRange :: "(string \<rightharpoonup> any) \<Rightarrow> string list \<Rightarrow> (string \<times> any) list" where
  "MapRange m order = List.map_filter (\<lambda>k. map_option (Pair k) (m k)) order"

text \<open>
  An interface value is sent as the registered name of its concrete type followed by the
  value at the end of its pointers; the nil interface is sent as the empty name. A nil
  pointer, and a base type that is not registered, stop the encoding with an error.
\<close>

fun has_nil_pointer :: "any \<Rightarrow> bool" where
  "has_nil_pointer (PointerV v) = has_nil_pointer v"
| "has_nil_pointer NilPointerV = True"
| "has_nil_pointer v = False"

definition encodeInterface :: "any \<Rightarrow> error + any" where
  "encodeInterface v =
     (if v = NilV then Inr NilV
      else if has_nil_pointer v then Inl NilPointer
      else if registered (base v) then Inr (base v)
      else Inl (NotRegistered (type_name (base v))))"

fun encodeMap :: "(string \<times> any) list \<Rightarrow> error + (string \<times> any) list" where
  "encodeMap [] = Inr []"
| "encodeMap ((k, v) # ps) =
     (case encodeInterface v of
        Inl e \<Rightarrow> Inl e
      | Inr w \<Rightarrow>
          (case encodeMap ps of
             Inl e \<Rightarrow> Inl e
           | Inr ws \<Rightarrow> Inr ((k, w) # ws)))"

text \<open>
  \<^verbatim>\<open>Encoder.Encode\<close> on an open file. The definition of the map type is written as a
  message of its own before the value is encoded; the value message is built in a buffer
  and written only when the encoding has succeeded.
\<close>

definition Encode :: "(string \<rightharpoonup> any) \<Rightarrow> string list \<Rightarrow> File \<Rightarrow> filesys \<Rightarrow> error option \<times> filesys" where
  "Encode m order f fs =
     (case Write f [TypeDef] fs of
        (f1, fs1) \<Rightarrow>
          (let ps = MapRange m order
           in case encodeMap ps of
                Inl e \<Rightarrow> (Some e, fs1)
              | Inr ws \<Rightarrow> (None, snd (Write f1 [MapValue (length ps) ws] fs1))))"

text \<open>
  The decoder skips type definitions until a value message arrives. The map type is not
  a built-in one, so a value message that no type definition precedes is an error, as is
  the end of the stream.
\<close>

fun decodeTypeSequence :: "bool \<Rightarrow> message list \<Rightarrow> error + nat \<times> (string \<times> any) list" where
  "decodeTypeSequence firstMessage [] = Inl StreamError"
| "decodeTypeSequence firstMessage (TypeDef # ms) = decodeTypeSequence False ms"
| "decodeTypeSequence firstMessage (MapValue n ps # ms) =
     (if firstMessage then Inl StreamError else Inr (n, ps))"
| "decodeTypeSequence firstMessage (Other # ms) = Inl StreamError"

text \<open>
  The element of an entry names its concrete type, which has to be registered in the
  decoding program; the empty name gives the nil interface. Pointers are never sent.
\<close>

definition decodeInterface :: "any \<Rightarrow> error + any" where
  "decodeInterface w =
     (if w = NilV then Inr NilV
      else if base w \<noteq> w \<or> w = NilPointerV then Inl BadValue
      else if registered w then Inr w
      else Inl (NotRegistered (type_name w)))"

text \<open>
  gob's \<^verbatim>\<open>decodeMap\<close> allocates a map only when the destination is nil, and stores
  each entry into the destination with \<^verbatim>\<open>SetMapIndex\<close> as soon as it is decoded. The
  destination here is \<^verbatim>\<open>db.data\<close>, which \<^verbatim>\<open>NewDataBase\<close> allocates and nothing sets
  to nil, so the entries go into the store's own map. An error leaves the function at
  once, with the entries stored so far.
\<close>

fun decodeMap :: "nat \<Rightarrow> (string \<times> any) list \<Rightarrow> (string \<rightharpoonup> any) \<Rightarrow> error option \<times> (string \<rightharpoonup> any)" where
  "decodeMap 0 ps m = (None, m)"
| "decodeMap (Suc n) [] m = (Some ShortValue, m)"
| "decodeMap (Suc n) ((k, w) # ps) m =
     (case decodeInterface w of
        Inl e \<Rightarrow> (Some e, m)
      | Inr v \<Rightarrow> decodeMap n ps (m(k \<mapsto> v)))"

definition Decode :: "message list \<Rightarrow> (string \<rightharpoonup> any) \<Rightarrow> error option \<times> (string \<rightharpoonup> any)" where
  "Decode ms m =
     (case decodeTypeSequence True ms of
        Inl e \<Rightarrow> (Some e, m)
      | Inr (n, ps) \<Rightarrow> decodeMap n ps m)"

section \<open>Persist and Load\<close>

text \<open>
  Both methods act on the store and the file system and return the error, \<open>None\<close> for
  \<^verbatim>\<open>nil\<close>. \<^verbatim>\<open>Persist\<close> takes the order of the map iteration as well. It encodes
  into the file that \<^verbatim>\<open>os.Create\<close> has returned.
\<close>

definition Persist :: "string \<Rightarrow> string list \<Rightarrow> DataBase \<times> filesys \<Rightarrow> error option \<times> DataBase \<times> filesys" where
  "Persist fileName order = (\<lambda>(db, fs).
     case os_Create fileName fs of
       Inl err \<Rightarrow> (Some err, db, fs)
     | Inr (file, fs1) \<Rightarrow>
         (case Encode (data db) order file fs1 of
            (err, fs2) \<Rightarrow> (err, db, fs2)))"

definition Load :: "string \<Rightarrow> DataBase \<times> filesys \<Rightarrow> error option \<times> DataBase \<times> filesys" where
  "Load fileName = (\<lambda>(db, fs).
     case os_Open fileName fs of
       Inl err \<Rightarrow> (Some err, db, fs)
     | Inr file \<Rightarrow>
         (case Read file of
            Inl err \<Rightarrow> (Some err, db, fs)
          | Inr ms \<Rightarrow>
              (case Decode ms (data db) of
                 (err, m) \<Rightarrow> (err, db\<lparr>data := m\<rparr>, fs))))"

text \<open>The spec's \<^verbatim>\<open>IOError\<close>: an error of the file system.\<close>

definition IOError :: "error \<Rightarrow> bool" where
  "IOError e = (case e of PathError n \<Rightarrow> True | _ \<Rightarrow> False)"

section \<open>The lock and the goroutines\<close>




















section \<open>Set and Get\<close>

lemma SetAll_snoc: "SetAll (calls @ [(k, v)]) db = Set k v (SetAll calls db)"
  by (simp add: SetAll_def)

lemma most_recent_Nil: "most_recent key [] = None"
  by (simp add: most_recent_def)

lemma most_recent_snoc:
  "most_recent key (calls @ [(k, v)]) = (if k = key then Some v else most_recent key calls)"
  by (simp add: most_recent_def)

lemma data_SetAll: "data (SetAll calls NewDataBase) key = most_recent key calls"
proof (induction calls rule: rev_induct)
  case Nil
  show ?case by (simp add: SetAll_def NewDataBase_def most_recent_Nil)
next
  case (snoc c calls)
  obtain k v where c: "c = (k, v)" by (cases c)
  show ?case
    unfolding c SetAll_snoc most_recent_snoc using snoc.IH
    by (simp add: Set_def)
qed

text \<open>
  C4. Last write wins: after any finite sequence of \<^verbatim>\<open>Set\<close> calls on a store created
  empty, \<^verbatim>\<open>Get(k)\<close> returns the most recently set value of \<open>k\<close> with \<^verbatim>\<open>true\<close>, and
  for a key no call has set it returns \<^verbatim>\<open>false\<close> (with the nil value).
\<close>

theorem Get_last_write_wins:
  "Get key (SetAll calls NewDataBase) =
     (case most_recent key calls of Some v \<Rightarrow> (v, True) | None \<Rightarrow> (NilV, False))"
  by (simp add: Get_def data_SetAll)

text \<open>
  C10. The empty string is a key like any other: \<^verbatim>\<open>Set("", v)\<close> stores the entry in
  whatever store it is called on, and \<^verbatim>\<open>Get("")\<close> then returns \<open>v\<close> with \<^verbatim>\<open>true\<close>.
\<close>

theorem Get_Set_empty_key: "Get [] (Set [] v db) = (v, True)"
  by (simp add: Get_def Set_def)

section \<open>The encoder and the decoder\<close>

lemma registered_decode: "registered w \<Longrightarrow> decodeInterface w = Inr w"
  by (cases w) (simp_all add: decodeInterface_def)

lemma decodeInterface_NilV: "decodeInterface NilV = Inr NilV"
  by (simp add: decodeInterface_def)

lemma encodeInterface_Inr:
  "encodeInterface v = Inr w \<Longrightarrow> w = base v \<and> decodeInterface w = Inr w"
  by (auto simp: encodeInterface_def registered_decode decodeInterface_NilV split: if_splits)

lemma encodeMap_Inr:
  "encodeMap ps = Inr ws \<Longrightarrow>
   ws = map (\<lambda>(k, v). (k, base v)) ps \<and> list_all (\<lambda>(k, w). decodeInterface w = Inr w) ws"
proof (induction ps arbitrary: ws)
  case Nil
  then show ?case by simp
next
  case (Cons p ps)
  obtain k v where p: "p = (k, v)" by (cases p)
  from Cons.prems obtain w ws' where w: "encodeInterface v = Inr w"
    and ws': "encodeMap ps = Inr ws'" and ws: "ws = (k, w) # ws'"
    by (auto simp: p split: sum.splits)
  from encodeInterface_Inr [OF w] Cons.IH [OF ws'] show ?case
    by (auto simp: p ws)
qed

lemma decodeMap_sent:
  "list_all (\<lambda>(k, w). decodeInterface w = Inr w) ws \<Longrightarrow>
   decodeMap (length ws) ws m = (None, foldl (\<lambda>m (k, v). m(k \<mapsto> v)) m ws)"
  by (induction ws arbitrary: m) auto

text \<open>
  Whatever the message holds, the decoder lays the same entries over any destination,
  and ends with the same error.
\<close>

lemma decodeMap_add: "\<exists>e f. \<forall>m. decodeMap n ps m = (e, m ++ f)"
proof (induction ps arbitrary: n)
  case Nil
  have "\<forall>m. decodeMap n [] m = (if n = 0 then None else Some ShortValue, m ++ Map.empty)"
    by (cases n) simp_all
  then show ?case by blast
next
  case (Cons p ps)
  obtain k w where p: "p = (k, w)" by (cases p)
  show ?case
  proof (cases n)
    case 0
    then have "\<forall>m. decodeMap n (p # ps) m = (None, m ++ Map.empty)"
      by simp
    then show ?thesis by blast
  next
    case (Suc n')
    show ?thesis
    proof (cases "decodeInterface w")
      case (Inl e)
      then have "\<forall>m. decodeMap n (p # ps) m = (Some e, m ++ Map.empty)"
        by (simp add: p Suc)
      then show ?thesis by blast
    next
      case (Inr v)
      from Cons.IH [of n'] obtain e f where ef: "\<forall>m. decodeMap n' ps m = (e, m ++ f)"
        by blast
      have "m(k \<mapsto> v) ++ f = m ++ ([k \<mapsto> v] ++ f)" for m :: "string \<rightharpoonup> any"
        by (simp add: map_add_assoc [symmetric])
      then have "\<forall>m. decodeMap n (p # ps) m = (e, m ++ ([k \<mapsto> v] ++ f))"
        by (simp add: p Suc Inr ef)
      then show ?thesis by blast
    qed
  qed
qed

lemma decodeMap_again:
  assumes "decodeMap n ps m = (e, m')"
  shows "decodeMap n ps m' = (e, m')"
proof -
  from decodeMap_add [of n ps] obtain e' f where ef: "\<forall>m. decodeMap n ps m = (e', m ++ f)"
    by blast
  from assms ef have "e = e'" "m' = m ++ f" by auto
  moreover have "(m ++ f) ++ f = m ++ f"
    by (rule ext) (simp add: map_add_def split: option.splits)
  ultimately show ?thesis using ef by simp
qed

lemma decodeMap_error:
  "fst (decodeMap n ps m) \<noteq> Some (PathError x)" "fst (decodeMap n ps m) \<noteq> Some StreamError"
  by (induction n ps m rule: decodeMap.induct)
     (auto simp: decodeInterface_def split: if_splits)

lemma map_of_MapRange:
  "map_of (MapRange m order) k = (if k \<in> set order then m k else None)"
  by (induction order) (auto simp: MapRange_def List.map_filter_simps split: option.splits)

lemma length_MapRange: "set order \<subseteq> dom m \<Longrightarrow> length (MapRange m order) = length order"
  by (induction order) (auto simp: MapRange_def List.map_filter_simps split: option.splits)

lemma map_fst_MapRange: "set order \<subseteq> dom m \<Longrightarrow> map fst (MapRange m order) = order"
  by (induction order) (auto simp: MapRange_def List.map_filter_simps split: option.splits)

lemma MapRange_visits:
  assumes "visits order m"
  shows "map_of (MapRange m order) = m" and "map fst (MapRange m order) = order"
    and "length (MapRange m order) = card (dom m)"
proof -
  from assms have d: "distinct order" and s: "set order = dom m"
    by (simp_all add: visits_def)
  show "map_of (MapRange m order) = m"
    by (rule ext) (simp add: map_of_MapRange s domIff)
  show "map fst (MapRange m order) = order"
    by (simp add: map_fst_MapRange s)
  show "length (MapRange m order) = card (dom m)"
    using distinct_card [OF d] by (simp add: length_MapRange s)
qed

lemma Decode_snapshot:
  "list_all (\<lambda>(k, w). decodeInterface w = Inr w) ws \<Longrightarrow>
   Decode [TypeDef, MapValue (length ws) ws] m = (None, foldl (\<lambda>m (k, v). m(k \<mapsto> v)) m ws)"
  by (simp add: Decode_def decodeMap_sent)

lemma Decode_again:
  assumes "Decode ms m = (e, m')"
  shows "Decode ms m' = (e, m')"
  using assms
  by (auto simp: Decode_def dest: decodeMap_again split: sum.splits)

lemma Decode_empty: "Decode [] m = (Some StreamError, m)"
  by (simp add: Decode_def)

text \<open>The definitions that a run of the methods on concrete data unfolds.\<close>

lemmas run_simps = Persist_def Load_def os_Create_def os_Open_def Read_def Write_def walk_def
  dir_def Encode_def Decode_def MapRange_def List.map_filter_simps encodeInterface_def
  decodeInterface_def registerBasics_def Set_def Get_def NewDataBase_def Let_def

section \<open>Persist\<close>

text \<open>What a \<^verbatim>\<open>Persist\<close> that returns \<^verbatim>\<open>nil\<close> leaves.\<close>

lemma Persist_None:
  assumes "Persist fileName order (db, fs) = (None, db', fs')"
  shows "db' = db \<and> fileName \<noteq> [] \<and> (\<exists>ws. encodeMap (MapRange (data db) order) = Inr ws \<and>
    fs' = (if fs fileName = Some Device then fs
           else fs(fileName \<mapsto> Regular [TypeDef, MapValue (length ws) ws])))"
  using assms
  by (auto simp: Persist_def os_Create_def Encode_def Write_def Let_def walk_def
         dest: encodeMap_Inr
         split: option.splits node.splits sum.splits prod.splits if_splits)

text \<open>
  \<^verbatim>\<open>Persist\<close> returns the error of \<^verbatim>\<open>os.Create\<close> for the empty name and for a
  name in a directory that does not exist.
\<close>

lemma Persist_path_errors:
  "fst (Persist [] order (db, fs)) = Some (PathError ENOENT)"
  "fst (Persist ''nodir/p'' order (db, Map.empty)) = Some (PathError ENOENT)"
  by (simp_all add: run_simps)

text \<open>
  C7. \<^verbatim>\<open>Persist\<close> does not change the store: whatever the store, the file name, the
  order of the map iteration and the file system, and whether it returns an error or
  not, the store after the call is the store before it.
\<close>

theorem Persist_keeps_store: "fst (snd (Persist fileName order (db, fs))) = db"
  by (simp add: Persist_def split: sum.splits prod.splits)

text \<open>
  C9, as stated, fails when the name leads to a device: \<^verbatim>\<open>Persist\<close> on
  \<^verbatim>\<open>/dev/null\<close> returns \<^verbatim>\<open>nil\<close>, and nothing holds the snapshot afterwards.
\<close>

theorem Persist_to_device:
  "Persist ''/dev/null'' [''a'']
      (Set ''a'' (IntV 1) NewDataBase, [''/dev/null'' \<mapsto> Device, ''/dev'' \<mapsto> Directory])
     = (None, Set ''a'' (IntV 1) NewDataBase,
        [''/dev/null'' \<mapsto> Device, ''/dev'' \<mapsto> Directory])"
  by (simp add: run_simps)

text \<open>
  C9, amended. When \<^verbatim>\<open>Persist\<close> returns \<^verbatim>\<open>nil\<close> and the name does not lead to a
  device, the file of that name holds the definition of the map type and one value
  message and nothing else, whatever was at that name before (no file, or a file with
  other contents), and every other file is as it was. The message announces as many
  entries as the map has keys, and its pairs are the map: one pair for each key, with
  the key's value as gob sends it (the value at the end of its pointers).
\<close>

theorem Persist_writes_snapshot:
  assumes "Persist fileName order (db, fs) = (None, db', fs')"
    and "fs fileName \<noteq> Some Device"
    and "visits order (data db)"
  shows "fs' = fs(fileName \<mapsto> Regular [TypeDef,
           MapValue (card (dom (data db)))
             (map (\<lambda>(k, v). (k, base v)) (MapRange (data db) order))])
    \<and> map_of (MapRange (data db) order) = data db
    \<and> map fst (MapRange (data db) order) = order"
proof -
  let ?ps = "MapRange (data db) order"
  from Persist_None [OF assms(1)] assms(2) obtain ws
    where ws: "encodeMap ?ps = Inr ws"
      and fs': "fs' = fs(fileName \<mapsto> Regular [TypeDef, MapValue (length ws) ws])"
    by auto
  from encodeMap_Inr [OF ws] have "ws = map (\<lambda>(k, v). (k, base v)) ?ps"
    by simp
  with fs' MapRange_visits [OF assms(3)] show ?thesis by simp
qed

text \<open>
  The theorem at a store with one entry, once with no file at the name and once with a
  longer file there, and at a store that holds an \<^verbatim>\<open>int64\<close> and a pointer.
\<close>

theorem Persist_writes_snapshot_witness:
  "Persist ''p'' [''a''] (Set ''a'' (IntV 1) NewDataBase, Map.empty)
     = (None, Set ''a'' (IntV 1) NewDataBase,
        [''p'' \<mapsto> Regular [TypeDef, MapValue 1 [(''a'', IntV 1)]]])
   \<and> Persist ''p'' [''a''] (Set ''a'' (IntV 1) NewDataBase,
        [''p'' \<mapsto> Regular [TypeDef, TypeDef, MapValue 2 [(''x'', IntV 7), (''y'', IntV 8)]]])
     = (None, Set ''a'' (IntV 1) NewDataBase,
        [''p'' \<mapsto> Regular [TypeDef, MapValue 1 [(''a'', IntV 1)]]])
   \<and> Persist ''p'' [''n'', ''q'']
        (Set ''q'' (PointerV (IntV 5)) (Set ''n'' (BasicV ''int64'' ''7'') NewDataBase),
         Map.empty)
     = (None, Set ''q'' (PointerV (IntV 5)) (Set ''n'' (BasicV ''int64'' ''7'') NewDataBase),
        [''p'' \<mapsto> Regular [TypeDef,
           MapValue 2 [(''n'', BasicV ''int64'' ''7''), (''q'', IntV 5)]]])
   \<and> visits [''a''] (data (Set ''a'' (IntV 1) NewDataBase))
   \<and> card (dom (data (Set ''a'' (IntV 1) NewDataBase))) = 1"
proof -
  have 1: "Persist ''p'' [''a''] (Set ''a'' (IntV 1) NewDataBase, Map.empty)
     = (None, Set ''a'' (IntV 1) NewDataBase,
        [''p'' \<mapsto> Regular [TypeDef, MapValue 1 [(''a'', IntV 1)]]])"
    by (simp add: run_simps)
  have 2: "Persist ''p'' [''a''] (Set ''a'' (IntV 1) NewDataBase,
        [''p'' \<mapsto> Regular [TypeDef, TypeDef, MapValue 2 [(''x'', IntV 7), (''y'', IntV 8)]]])
     = (None, Set ''a'' (IntV 1) NewDataBase,
        [''p'' \<mapsto> Regular [TypeDef, MapValue 1 [(''a'', IntV 1)]]])"
    by (simp add: run_simps)
  have 3: "Persist ''p'' [''n'', ''q'']
        (Set ''q'' (PointerV (IntV 5)) (Set ''n'' (BasicV ''int64'' ''7'') NewDataBase),
         Map.empty)
     = (None, Set ''q'' (PointerV (IntV 5)) (Set ''n'' (BasicV ''int64'' ''7'') NewDataBase),
        [''p'' \<mapsto> Regular [TypeDef,
           MapValue 2 [(''n'', BasicV ''int64'' ''7''), (''q'', IntV 5)]]])"
    by (simp add: run_simps numeral_2_eq_2)
  have v: "visits [''a''] (data (Set ''a'' (IntV 1) NewDataBase))"
    by (simp add: visits_def Set_def NewDataBase_def)
  have w: "visits [''n'', ''q'']
      (data (Set ''q'' (PointerV (IntV 5)) (Set ''n'' (BasicV ''int64'' ''7'') NewDataBase)))"
    by (auto simp: visits_def Set_def NewDataBase_def)
  have c: "card (dom (data (Set ''a'' (IntV 1) NewDataBase))) = 1"
    by (simp add: Set_def NewDataBase_def)
  have a: "(Map.empty :: filesys) ''p'' \<noteq> Some Device"
    by simp
  have b: "([''p'' \<mapsto> Regular [TypeDef, TypeDef, MapValue 2 [(''x'', IntV 7), (''y'', IntV 8)]]]
      :: filesys) ''p'' \<noteq> Some Device"
    by simp
  show ?thesis
    using Persist_writes_snapshot [OF 1 a v] Persist_writes_snapshot [OF 2 b v]
      Persist_writes_snapshot [OF 3 a w] 1 2 3 v c
    by simp
qed

section \<open>Load\<close>

lemma Load_files: "snd (snd (Load fileName (db, fs))) = fs"
  by (simp add: Load_def split: sum.splits prod.splits)

lemma Load_Regular:
  "fileName \<noteq> [] \<Longrightarrow> fs fileName = Some (Regular ms) \<Longrightarrow>
   Load fileName (db, fs) =
     (fst (Decode ms (data db)), db\<lparr>data := snd (Decode ms (data db))\<rparr>, fs)"
  by (simp add: Load_def os_Open_def Read_def split: prod.splits)

lemma Load_Device:
  "fileName \<noteq> [] \<Longrightarrow> fs fileName = Some Device \<Longrightarrow>
   Load fileName (db, fs) = (Some StreamError, db, fs)"
  by (simp add: Load_def os_Open_def Read_def Decode_empty)

lemma Load_again:
  assumes "Load fileName (db, fs) = (e, db', fs')"
  shows "Load fileName (db', fs') = (e, db', fs')"
proof (cases "fileName = [] \<or> fs fileName = None")
  case True
  with assms show ?thesis by (auto simp: Load_def os_Open_def)
next
  case False
  then obtain n where ne: "fileName \<noteq> []" and n: "fs fileName = Some n" by auto
  show ?thesis
  proof (cases n)
    case Directory
    with ne n assms show ?thesis by (auto simp: Load_def os_Open_def Read_def)
  next
    case Device
    with ne n assms show ?thesis by (auto simp: Load_Device)
  next
    case (Regular ms)
    obtain e0 m0 where d: "Decode ms (data db) = (e0, m0)" by (cases "Decode ms (data db)")
    from Decode_again [OF d] ne n Regular assms d show ?thesis
      by (auto simp: Load_Regular)
  qed
qed

text \<open>
  C5. \<^verbatim>\<open>Load\<close> with a name at which no file exists returns the error of
  \<^verbatim>\<open>os.Open\<close>, an \<^verbatim>\<open>IOError\<close>, and leaves the store (and the file system) as it
  was.
\<close>

theorem Load_missing_file:
  assumes "fs fileName = None"
  shows "Load fileName (db, fs) = (Some (PathError ENOENT), db, fs)
    \<and> IOError (PathError ENOENT)"
  using assms by (simp add: Load_def os_Open_def IOError_def)

theorem Load_missing_file_witness:
  "Load ''nowhere'' (Set ''a'' (IntV 1) NewDataBase, Map.empty)
     = (Some (PathError ENOENT), Set ''a'' (IntV 1) NewDataBase, Map.empty)
   \<and> IOError (PathError ENOENT)"
  using Load_missing_file [of Map.empty "''nowhere''" "Set ''a'' (IntV 1) NewDataBase"]
  by simp

text \<open>
  C6. Loading twice is loading once: when the file was written by a \<^verbatim>\<open>Persist\<close> that
  returned \<^verbatim>\<open>nil\<close>, and \<^verbatim>\<open>Load\<close> is called twice in a row on a store, the store's
  map after the second call is its map after the first, both calls return the same, and
  the file is left as it is. Both calls return \<^verbatim>\<open>nil\<close>, unless the name leads to a
  device, which has kept nothing to load.
\<close>

theorem Load_twice:
  assumes "Persist fileName order (db0, fs0) = (None, db0', fs)"
    and "Load fileName (db, fs) = (e1, db1, fs1)"
    and "Load fileName (db1, fs1) = (e2, db2, fs2)"
  shows "data db2 = data db1 \<and> e2 = e1 \<and> fs1 = fs \<and> fs2 = fs
    \<and> (fs0 fileName \<noteq> Some Device \<longrightarrow> e1 = None \<and> e2 = None)"
proof -
  let ?ps = "MapRange (data db0) order"
  from Load_again [OF assms(2)] assms(3) have same: "e2 = e1" "db2 = db1" "fs2 = fs1"
    by simp_all
  from Load_files [of fileName db fs] assms(2) have fs1: "fs1 = fs"
    by simp
  have "e1 = None" if nd: "fs0 fileName \<noteq> Some Device"
  proof -
    from Persist_None [OF assms(1)] nd obtain ws
      where ne: "fileName \<noteq> []" and ws: "encodeMap ?ps = Inr ws"
        and fs: "fs = fs0(fileName \<mapsto> Regular [TypeDef, MapValue (length ws) ws])"
      by auto
    from encodeMap_Inr [OF ws] have ok: "list_all (\<lambda>(k, w). decodeInterface w = Inr w) ws"
      by blast
    from fs have "fs fileName = Some (Regular [TypeDef, MapValue (length ws) ws])"
      by simp
    with assms(2) ne show ?thesis
      by (auto simp: Load_Regular Decode_snapshot [OF ok])
  qed
  with same fs1 show ?thesis by simp
qed

theorem Load_twice_witness:
  "Persist ''p'' [''a''] (Set ''a'' (IntV 1) NewDataBase, Map.empty)
     = (None, Set ''a'' (IntV 1) NewDataBase,
        [''p'' \<mapsto> Regular [TypeDef, MapValue 1 [(''a'', IntV 1)]]])
   \<and> Load ''p'' (Set ''c'' (IntV 3) NewDataBase,
        [''p'' \<mapsto> Regular [TypeDef, MapValue 1 [(''a'', IntV 1)]]])
     = (None, Set ''a'' (IntV 1) (Set ''c'' (IntV 3) NewDataBase),
        [''p'' \<mapsto> Regular [TypeDef, MapValue 1 [(''a'', IntV 1)]]])
   \<and> Load ''p'' (Set ''a'' (IntV 1) (Set ''c'' (IntV 3) NewDataBase),
        [''p'' \<mapsto> Regular [TypeDef, MapValue 1 [(''a'', IntV 1)]]])
     = (None, Set ''a'' (IntV 1) (Set ''c'' (IntV 3) NewDataBase),
        [''p'' \<mapsto> Regular [TypeDef, MapValue 1 [(''a'', IntV 1)]]])"
proof -
  have 1: "Persist ''p'' [''a''] (Set ''a'' (IntV 1) NewDataBase, Map.empty)
     = (None, Set ''a'' (IntV 1) NewDataBase,
        [''p'' \<mapsto> Regular [TypeDef, MapValue 1 [(''a'', IntV 1)]]])"
    by (simp add: run_simps)
  have 2: "Load ''p'' (Set ''c'' (IntV 3) NewDataBase,
        [''p'' \<mapsto> Regular [TypeDef, MapValue 1 [(''a'', IntV 1)]]])
     = (None, Set ''a'' (IntV 1) (Set ''c'' (IntV 3) NewDataBase),
        [''p'' \<mapsto> Regular [TypeDef, MapValue 1 [(''a'', IntV 1)]]])"
    by (simp add: run_simps)
  have 3: "Load ''p'' (Set ''a'' (IntV 1) (Set ''c'' (IntV 3) NewDataBase),
        [''p'' \<mapsto> Regular [TypeDef, MapValue 1 [(''a'', IntV 1)]]])
     = (None, Set ''a'' (IntV 1) (Set ''c'' (IntV 3) NewDataBase),
        [''p'' \<mapsto> Regular [TypeDef, MapValue 1 [(''a'', IntV 1)]]])"
    by (simp add: run_simps)
  from Load_twice [OF 1 2 3] 1 2 3 show ?thesis
    by simp
qed

text \<open>
  C1. The spec's scenario, run on the code: \<^verbatim>\<open>Set("a",1)\<close>, \<^verbatim>\<open>Set("b",2)\<close>,
  \<^verbatim>\<open>Persist(p)\<close>, \<^verbatim>\<open>Set("c",3)\<close>, \<^verbatim>\<open>Load(p)\<close>, for both orders in which the
  encoder can visit the two keys. Both calls return \<^verbatim>\<open>nil\<close>, and afterwards the store
  holds \<open>a\<close>, \<open>b\<close> and also \<open>c\<close>: the decoder has stored the file's entries into the
  map that was there and has removed nothing from it.
\<close>

theorem Load_keeps_later_key:
  "(case Persist ''p'' [''a'', ''b'']
          (Set ''b'' (IntV 2) (Set ''a'' (IntV 1) NewDataBase), Map.empty) of
      (e1, db1, fs1) \<Rightarrow>
        (case Load ''p'' (Set ''c'' (IntV 3) db1, fs1) of
           (e2, db2, fs2) \<Rightarrow> (e1, e2, Get ''a'' db2, Get ''b'' db2, Get ''c'' db2)))
     = (None, None, (IntV 1, True), (IntV 2, True), (IntV 3, True))
   \<and> (case Persist ''p'' [''b'', ''a'']
          (Set ''b'' (IntV 2) (Set ''a'' (IntV 1) NewDataBase), Map.empty) of
      (e1, db1, fs1) \<Rightarrow>
        (case Load ''p'' (Set ''c'' (IntV 3) db1, fs1) of
           (e2, db2, fs2) \<Rightarrow> (e1, e2, Get ''a'' db2, Get ''b'' db2, Get ''c'' db2)))
     = (None, None, (IntV 1, True), (IntV 2, True), (IntV 3, True))"
  by (simp add: run_simps)

text \<open>
  C2, as stated, fails. The file below is a gob stream written by a program that has
  registered a type \<^verbatim>\<open>Foo\<close>: two type definitions and a map of two entries, the second
  one a \<^verbatim>\<open>Foo\<close>. \<^verbatim>\<open>Load\<close> on an empty store returns the decoder's error for the
  second entry, and the store then holds the first entry.
\<close>

theorem Load_error_after_first_entry:
  "Load ''p'' (NewDataBase,
      [''p'' \<mapsto> Regular [TypeDef, TypeDef,
         MapValue 2 [(''a'', IntV 1), (''b'', NamedV ''Foo'')]]])
   = (Some (NotRegistered ''Foo''), Set ''a'' (IntV 1) NewDataBase,
      [''p'' \<mapsto> Regular [TypeDef, TypeDef,
         MapValue 2 [(''a'', IntV 1), (''b'', NamedV ''Foo'')]]])
   \<and> Get ''a'' NewDataBase = (NilV, False)
   \<and> Get ''a'' (Set ''a'' (IntV 1) NewDataBase) = (IntV 1, True)"
  by (simp add: run_simps numeral_2_eq_2)

text \<open>
  C2, amended. When \<^verbatim>\<open>Load\<close> fails with an \<^verbatim>\<open>IOError\<close> (the file cannot be opened
  or read) or because no value message of the map's type can be read from the file, the
  store after the call is the store before it. A failure among the entries of the value
  message is not covered.
\<close>

theorem Load_failure_before_entries:
  assumes "Load fileName (db, fs) = (Some e, db', fs')"
    and "IOError e \<or> e = StreamError"
  shows "db' = db \<and> fs' = fs"
proof (cases "fileName = [] \<or> fs fileName = None")
  case True
  with assms(1) show ?thesis by (auto simp: Load_def os_Open_def split: if_splits)
next
  case False
  then obtain n where ne: "fileName \<noteq> []" and n: "fs fileName = Some n" by auto
  show ?thesis
  proof (cases n)
    case Directory
    with ne n assms(1) show ?thesis by (auto simp: Load_def os_Open_def Read_def)
  next
    case Device
    with ne n assms(1) show ?thesis by (auto simp: Load_Device)
  next
    case (Regular ms)
    show ?thesis
    proof (cases "decodeTypeSequence True ms")
      case (Inl err)
      with ne n Regular assms(1) show ?thesis
        by (auto simp: Load_Regular Decode_def)
    next
      case (Inr r)
      obtain k ps where r: "r = (k, ps)" by (cases r)
      from ne n Regular assms Inr r decodeMap_error [of k ps "data db"] show ?thesis
        by (auto simp: Load_Regular Decode_def IOError_def split: error.splits)
    qed
  qed
qed

text \<open>
  The theorem at a file that ends after the type definition, and at a directory.
\<close>

theorem Load_failure_before_entries_witness:
  "Load ''p'' (Set ''a'' (IntV 1) NewDataBase, [''p'' \<mapsto> Regular [TypeDef]])
     = (Some StreamError, Set ''a'' (IntV 1) NewDataBase, [''p'' \<mapsto> Regular [TypeDef]])
   \<and> Load ''d'' (Set ''a'' (IntV 1) NewDataBase, [''d'' \<mapsto> Directory])
     = (Some (PathError EISDIR), Set ''a'' (IntV 1) NewDataBase, [''d'' \<mapsto> Directory])
   \<and> IOError (PathError EISDIR)"
proof -
  have 1: "Load ''p'' (Set ''a'' (IntV 1) NewDataBase, [''p'' \<mapsto> Regular [TypeDef]])
     = (Some StreamError, Set ''a'' (IntV 1) NewDataBase, [''p'' \<mapsto> Regular [TypeDef]])"
    by (simp add: run_simps)
  have 2: "Load ''d'' (Set ''a'' (IntV 1) NewDataBase, [''d'' \<mapsto> Directory])
     = (Some (PathError EISDIR), Set ''a'' (IntV 1) NewDataBase, [''d'' \<mapsto> Directory])"
    by (simp add: run_simps)
  have 3: "IOError (PathError EISDIR)"
    by (simp add: IOError_def)
  show ?thesis
    using Load_failure_before_entries [OF 1] Load_failure_before_entries [OF 2] 1 2 3
    by simp
qed

text \<open>
  C3. Round trip into a different store, run on the code: one store holds \<open>a\<close> and is
  saved; another holds \<open>c\<close> and loads the file. Both calls return \<^verbatim>\<open>nil\<close>; the
  saved map has no \<open>c\<close>, and the loading store still has it afterwards, so its map is not
  the map at save time. It is the merge of C1 again.
\<close>

theorem Load_into_other_store:
  "(case Persist ''p'' [''a''] (Set ''a'' (IntV 1) NewDataBase, Map.empty) of
      (e1, db1, fs1) \<Rightarrow>
        (case Load ''p'' (Set ''c'' (IntV 3) NewDataBase, fs1) of
           (e2, db2, fs2) \<Rightarrow> (e1, e2, Get ''c'' db1, Get ''c'' db2, Get ''a'' db2)))
     = (None, None, (NilV, False), (IntV 3, True), (IntV 1, True))"
  by (simp add: run_simps)

section \<open>Locking\<close>



















end
